theory Spec2Isabelle
  imports Complex_Main "HOL-Library.Word"
begin

unbundle bit_operations_syntax

section \<open>JavaScript numbers and the 32-bit conversions of the bitwise operators\<close>

text \<open>
  A JavaScript \<open>number\<close> is an IEEE double: a finite value, \<open>NaN\<close> or one of the two
  infinities. Every finite double is a rational number, so a finite value is modelled by
  a \<open>rat\<close>; the model has more finite values than there are doubles, hence a statement
  about every \<open>js_number\<close> covers every double. The two zeros \<open>+0\<close> and \<open>-0\<close> are one
  value here: no operation used by the component tells them apart.
\<close>

datatype js_number = Finite rat | NaN | PosInfinity | NegInfinity

text \<open>
  \<open>ToInt32\<close> of ECMA-262: a value that is not finite becomes 0; a finite one is
  truncated towards zero and reduced modulo \<open>2^32\<close>. The result is a 32-bit word, read as
  two's complement by \<open>sint\<close>.
\<close>

definition truncate_rat :: "rat \<Rightarrow> int" where
  "truncate_rat q = (if q < 0 then \<lceil>q\<rceil> else \<lfloor>q\<rfloor>)"

definition ToInt32 :: "js_number \<Rightarrow> 32 word" where
  "ToInt32 x = (case x of Finite q \<Rightarrow> word_of_int (truncate_rat q) | _ \<Rightarrow> 0)"

text \<open>
  \<open>x >> n\<close>: the left operand through \<open>ToInt32\<close>, the shift count modulo 32, and a
  sign-propagating shift. \<open>x & y\<close> on two 32-bit values is the bitwise AND.
\<close>

definition js_shr :: "js_number \<Rightarrow> nat \<Rightarrow> 32 word" where
  "js_shr x n = signed_drop_bit (n mod 32) (ToInt32 x)"

definition js_and :: "32 word \<Rightarrow> 32 word \<Rightarrow> 32 word" where
  "js_and x y = x AND y"

section \<open>String builtins\<close>

text \<open>
  A string is a list of characters, each standing for one UTF-16 code unit below 256 (ASCII
  and the Latin-1 supplement). \<open>Number.prototype.toString(16)\<close> on an integral value
  writes the magnitude in lower-case hexadecimal digits without leading zeros, after a
  minus sign for a negative value.
\<close>

definition digitChar :: "nat \<Rightarrow> char" where
  "digitChar d = ''0123456789abcdef'' ! d"

function hexDigits :: "nat \<Rightarrow> string" where
  "hexDigits n = (if n < 16 then [digitChar n] else hexDigits (n div 16) @ [digitChar (n mod 16)])"
  by pat_completeness auto
termination
  by (relation "measure id") auto

declare hexDigits.simps [simp del]

definition toString16 :: "32 word \<Rightarrow> string" where
  "toString16 w = (if sint w < 0 then ''-'' @ hexDigits (nat (- sint w)) else hexDigits (nat (sint w)))"

text \<open>
  \<open>s.padStart(n, pad)\<close>: a string already \<open>n\<close> long, or an empty \<open>pad\<close>, leaves \<open>s\<close> as it
  is; otherwise \<open>pad\<close> is repeated and cut to the missing length, and put in front.
\<close>

definition padStart :: "nat \<Rightarrow> string \<Rightarrow> string \<Rightarrow> string" where
  "padStart n pad s =
     (if n \<le> length s \<or> pad = [] then s
      else take (n - length s) (concat (replicate (n - length s) pad)) @ s)"

text \<open>
  Case conversion: the ASCII letters, and the Latin-1 letters \<open>0xC0..0xDE\<close> and
  \<open>0xE0..0xFE\<close> without the signs \<open>0xD7\<close> and \<open>0xF7\<close> between them. Lower case is closed
  under code units below 256. Upper case is not, for \<open>0xB5\<close>, \<open>0xDF\<close> and \<open>0xFF\<close> only, which
  \<open>upperChar\<close> leaves alone: \<open>toUpperCase\<close> is applied to the digits \<open>toString16\<close> writes and
  to nothing else.
\<close>

definition upperChar :: "char \<Rightarrow> char" where
  "upperChar c =
     (let n = of_char c :: nat
      in if (97 \<le> n \<and> n \<le> 122) \<or> (224 \<le> n \<and> n \<le> 254 \<and> n \<noteq> 247) then char_of (n - 32) else c)"

definition lowerChar :: "char \<Rightarrow> char" where
  "lowerChar c =
     (let n = of_char c :: nat
      in if (65 \<le> n \<and> n \<le> 90) \<or> (192 \<le> n \<and> n \<le> 222 \<and> n \<noteq> 215) then char_of (n + 32) else c)"

definition toUpperCase :: "string \<Rightarrow> string" where
  "toUpperCase s = map upperChar s"

definition toLowerCase :: "string \<Rightarrow> string" where
  "toLowerCase s = map lowerChar s"

section \<open>The formatter\<close>

text \<open>
  \<open>hexByte\<close> is the chain \<open>.toString(16).padStart(2, '0').toUpperCase()\<close> that
  \<open>getFullHMSCode\<close> applies to each of its eight masked values.
\<close>

definition hexByte :: "32 word \<Rightarrow> string" where
  "hexByte w = toUpperCase (padStart 2 ''0'' (toString16 w))"

definition getFullHMSCode :: "js_number \<Rightarrow> js_number \<Rightarrow> string" where
  "getFullHMSCode attr code =
     (let a1 = hexByte (js_and (js_shr attr 24) 0xFF);
          a2 = hexByte (js_and (js_shr attr 16) 0xFF);
          a3 = hexByte (js_and (js_shr attr 8) 0xFF);
          a4 = hexByte (js_and (ToInt32 attr) 0xFF);
          c1 = hexByte (js_and (js_shr code 24) 0xFF);
          c2 = hexByte (js_and (js_shr code 16) 0xFF);
          c3 = hexByte (js_and (js_shr code 8) 0xFF);
          c4 = hexByte (js_and (ToInt32 code) 0xFF)
      in a1 @ a2 @ ''_'' @ a3 @ a4 @ ''_'' @ c1 @ c2 @ ''_'' @ c3 @ c4)"

section \<open>The link to the documentation\<close>

text \<open>
  \<open>s.includes(t)\<close>: \<open>t\<close> occurs in \<open>s\<close> at some position.
\<close>

primrec includes_str :: "string \<Rightarrow> string \<Rightarrow> bool" where
  "includes_str [] t = (t = [])"
| "includes_str (x # xs) t = (take (length t) (x # xs) = t \<or> includes_str xs t)"

definition getHMSWikiUrl :: "js_number \<Rightarrow> js_number \<Rightarrow> string \<Rightarrow> string" where
  "getHMSWikiUrl attr code printerName =
     (let fullCode = getFullHMSCode attr code;
          isH2 = includes_str (toLowerCase printerName) ''h2'';
          basePath = (if isH2 then ''h2'' else ''x1'')
      in ''https://wiki.bambulab.com/en/'' @ basePath @ ''/troubleshooting/hmscode/'' @ fullCode)"

section \<open>Severity\<close>

datatype icon = X | AlertTriangle | AlertCircle | Info | ExternalLink

record severity_info =
  label :: string
  color :: string
  bgColor :: string
  Icon :: icon

text \<open>
  The \<open>switch\<close> compares with \<open>===\<close>; \<open>case 4\<close> falls through to \<open>default\<close>.
\<close>

definition getSeverityInfo :: "js_number \<Rightarrow> severity_info" where
  "getSeverityInfo severity =
     (if severity = Finite 1 then
        \<lparr>label = ''Fatal'', color = ''text-red-500'', bgColor = ''bg-red-500/20'', Icon = AlertTriangle\<rparr>
      else if severity = Finite 2 then
        \<lparr>label = ''Serious'', color = ''text-red-400'', bgColor = ''bg-red-500/15'', Icon = AlertTriangle\<rparr>
      else if severity = Finite 3 then
        \<lparr>label = ''Warning'', color = ''text-orange-400'', bgColor = ''bg-orange-500/20'', Icon = AlertCircle\<rparr>
      else
        \<lparr>label = ''Info'', color = ''text-blue-400'', bgColor = ''bg-blue-500/20'', Icon = Info\<rparr>)"

section \<open>The table of descriptions\<close>

definition HMS_DESCRIPTIONS :: "(string \<times> string) list" where
  "HMS_DESCRIPTIONS =
    [(''0700_5500_0002_0001'', ''A binding error occurred between AMS and the extruder. Please perform AMS initialization again.''),
     (''0500_0300_0002_000E'', ''Some modules are incompatible with the printer firmware version. Please update firmware.''),
     (''0300_0100_0002_0054'', ''The heatbed temperature is abnormal. The sensor may be disconnected or damaged.''),
     (''0500_0100_0005_0005'', ''Motor driver overheated. Let the printer cool down.''),
     (''0500_0100_0005_0006'', ''Motor driver communication error.''),
     (''0700_0100_0007_0001'', ''AMS communication error.''),
     (''0700_0100_0007_0002'', ''AMS filament runout.''),
     (''0700_0100_0007_0003'', ''AMS filament not detected.''),
     (''0C00_0100_000C_0003'', ''First layer inspection failed.''),
     (''0C00_0100_000C_0004'', ''Nozzle clog detected.''),
     (''0C00_0100_000C_8000'', ''Foreign object detected on print bed.''),
     (''0500_0100_0005_0000'', ''Motor X axis lost steps.''),
     (''0500_0100_0005_0001'', ''Motor Y axis lost steps.''),
     (''0500_0100_0005_0002'', ''Motor Z axis lost steps.'')]"

text \<open>
  Reading a property of an object literal: the entry written last wins where a key is
  written twice, and a key that was never written gives \<open>undefined\<close>, here \<open>None\<close>. The
  members an object inherits (\<open>constructor\<close>, \<open>toString\<close>, ...) are left out: the table is
  only read at a formatted code, nineteen characters long, which none of their names is.
\<close>

definition getProperty :: "(string \<times> 'v) list \<Rightarrow> string \<Rightarrow> 'v option" where
  "getProperty obj key = map_of (rev obj) key"

text \<open>
  \<open>d || fallback\<close> on a string or \<open>undefined\<close>: both \<open>undefined\<close> and the empty string are
  falsy.
\<close>

definition orElse :: "string option \<Rightarrow> string \<Rightarrow> string" where
  "orElse d fallback = (case d of None \<Rightarrow> fallback | Some s \<Rightarrow> if s = [] then fallback else s)"

definition describe :: "string \<Rightarrow> string" where
  "describe fullHMSCode =
     orElse (getProperty HMS_DESCRIPTIONS fullHMSCode) ''Unknown error. Click the link below for details.''"

section \<open>Reading the code field\<close>

text \<open>
  \<open>s.replace(pat, rep)\<close> with a string pattern replaces the first occurrence of \<open>pat\<close>
  and no other. (\<open>rep\<close> is taken literally: the one replacement passed here is empty.)
\<close>

fun replace_str :: "string \<Rightarrow> string \<Rightarrow> string \<Rightarrow> string" where
  "replace_str pat rep [] = (if pat = [] then rep else [])"
| "replace_str pat rep (x # xs) =
     (if take (length pat) (x # xs) = pat then rep @ drop (length pat) (x # xs)
      else x # replace_str pat rep xs)"

text \<open>
  The Number value of a mathematical integer: the nearest double, a tie going to the even
  significand, and an infinity from \<open>2^1024 - 2^970\<close> on. \<open>width n\<close> is the number of
  binary digits of \<open>n\<close>; a double holds 53 of them.
\<close>

function width :: "int \<Rightarrow> nat" where
  "width n = (if n \<le> 0 then 0 else Suc (width (n div 2)))"
  by pat_completeness auto
termination
  by (relation "measure nat") auto

declare width.simps [simp del]

definition toNumber :: "int \<Rightarrow> js_number" where
  "toNumber i =
     (let n = \<bar>i\<bar>;
          e = width n - 53;
          q = n div 2 ^ e;
          r = n mod 2 ^ e;
          q' = (if 2 ^ e < 2 * r \<or> (2 * r = 2 ^ e \<and> odd q) then q + 1 else q);
          v = q' * 2 ^ e
      in if 2 ^ 1024 \<le> v then (if i < 0 then NegInfinity else PosInfinity)
         else Finite (of_int (sgn i * v)))"

text \<open>
  \<open>parseInt(string, 16)\<close>: leading white space is dropped, then a sign, then \<open>0x\<close> or
  \<open>0X\<close>; the longest run of hexadecimal digits that follows is the numeral, and the
  result is \<open>NaN\<close> when that run is empty.
\<close>

definition isWhiteSpace :: "char \<Rightarrow> bool" where
  "isWhiteSpace c = ((of_char c :: nat) \<in> {9, 10, 11, 12, 13, 32, 160})"

definition digitValue :: "char \<Rightarrow> nat option" where
  "digitValue c =
     (let n = of_char c :: nat
      in if 48 \<le> n \<and> n \<le> 57 then Some (n - 48)
         else if 97 \<le> n \<and> n \<le> 102 then Some (n - 87)
         else if 65 \<le> n \<and> n \<le> 70 then Some (n - 55)
         else None)"

definition isHexDigit :: "char \<Rightarrow> bool" where
  "isHexDigit c = (digitValue c \<noteq> None)"

definition mathInt :: "string \<Rightarrow> int" where
  "mathInt Z = foldl (\<lambda>acc c. 16 * acc + (case digitValue c of Some d \<Rightarrow> int d | None \<Rightarrow> 0)) 0 Z"

definition parseInt16 :: "string \<Rightarrow> js_number" where
  "parseInt16 string =
     (let S = dropWhile isWhiteSpace string;
          sign = (if take 1 S = ''-'' then - 1 else 1 :: int);
          S1 = (if take 1 S = ''+'' \<or> take 1 S = ''-'' then drop 1 S else S);
          S2 = (if take 2 S1 = ''0x'' \<or> take 2 S1 = ''0X'' then drop 2 S1 else S1);
          Z = takeWhile isHexDigit S2
      in if Z = [] then NaN else toNumber (sign * mathInt Z))"

text \<open>
  \<open>x || 0\<close> on a number: \<open>NaN\<close> and zero are falsy.
\<close>

definition orZero :: "js_number \<Rightarrow> js_number" where
  "orZero x = (if x = NaN \<or> x = Finite 0 then Finite 0 else x)"

section \<open>The view\<close>

text \<open>
  \<open>s.replace(/_/g, '-')\<close> replaces every underscore.
\<close>

definition replace_underscores :: "string \<Rightarrow> string" where
  "replace_underscores s = map (\<lambda>c. if c = CHR ''_'' then CHR ''-'' else c) s"

record HMSError =
  attr :: js_number
  code :: string
  severity :: js_number

text \<open>
  What the body of \<open>errors.map\<close> computes for one error, and the card it returns: the
  code shown, the severity's label, colours and icon, the description and the link. The
  markup around them, the header with the printer's name and the debugging log carry no
  computation and are left out.
\<close>

definition codeNum :: "HMSError \<Rightarrow> js_number" where
  "codeNum error = orZero (parseInt16 (replace_str ''0x'' [] (code error)))"

definition fullHMSCode :: "HMSError \<Rightarrow> string" where
  "fullHMSCode error = getFullHMSCode (attr error) (codeNum error)"

record card =
  displayCode :: string
  info :: severity_info
  description :: string
  wikiUrl :: string

definition renderError :: "string \<Rightarrow> HMSError \<Rightarrow> card" where
  "renderError printerName error =
     \<lparr>displayCode = ''HMS_'' @ replace_underscores (fullHMSCode error),
      info = getSeverityInfo (severity error),
      description = describe (fullHMSCode error),
      wikiUrl = getHMSWikiUrl (attr error) (codeNum error) printerName\<rparr>"

datatype content = NoHMSErrors | Cards "card list"

definition HMSErrorModal :: "string \<Rightarrow> HMSError list \<Rightarrow> content" where
  "HMSErrorModal printerName errors =
     (if length errors = 0 then NoHMSErrors else Cards (map (renderError printerName) errors))"

section \<open>Closing on Escape\<close>

text \<open>
  The listener registered on \<open>keydown\<close>. The callback \<open>onClose\<close> acts on the state of its
  owner, of any type; the listener runs it or does nothing.
\<close>

record KeyboardEvent =
  key :: string

definition handleKeyDown :: "('s \<Rightarrow> 's) \<Rightarrow> KeyboardEvent \<Rightarrow> 's \<Rightarrow> 's" where
  "handleKeyDown onClose e s = (if key e = ''Escape'' then onClose s else s)"

section \<open>The format the specification describes\<close>

text \<open>
  The specification's words, as definitions of their own: a byte is written as two
  upper-case hexadecimal digits, the high digit first and a zero kept; a 32-bit value is
  written as two groups of two bytes, the most significant byte first; the code is the two
  groups of \<open>attr\<close> and the two groups of \<open>code\<close>, with an underscore between groups.
\<close>

definition upperHexDigit :: "nat \<Rightarrow> char" where
  "upperHexDigit d = ''0123456789ABCDEF'' ! d"

definition hex2 :: "nat \<Rightarrow> string" where
  "hex2 b = [upperHexDigit (b div 16), upperHexDigit (b mod 16)]"

definition byteOf :: "nat \<Rightarrow> nat \<Rightarrow> nat" where
  "byteOf k v = (v div 256 ^ k) mod 256"

definition highGroup :: "nat \<Rightarrow> string" where
  "highGroup v = hex2 (byteOf 3 v) @ hex2 (byteOf 2 v)"

definition lowGroup :: "nat \<Rightarrow> string" where
  "lowGroup v = hex2 (byteOf 1 v) @ hex2 (byteOf 0 v)"

definition formatted :: "nat \<Rightarrow> nat \<Rightarrow> string" where
  "formatted a c = highGroup a @ ''_'' @ lowGroup a @ ''_'' @ highGroup c @ ''_'' @ lowGroup c"

text \<open>
  The shape \<open>[0-9A-F]{4}_[0-9A-F]{4}_[0-9A-F]{4}_[0-9A-F]{4}\<close>, nineteen characters.
\<close>

definition isUpperHex :: "char \<Rightarrow> bool" where
  "isUpperHex c = (c \<in> set ''0123456789ABCDEF'')"

definition wellFormed :: "string \<Rightarrow> bool" where
  "wellFormed s =
     (length s = 19 \<and>
      list_all isUpperHex (take 4 s) \<and> s ! 4 = CHR ''_'' \<and>
      list_all isUpperHex (take 4 (drop 5 s)) \<and> s ! 9 = CHR ''_'' \<and>
      list_all isUpperHex (take 4 (drop 10 s)) \<and> s ! 14 = CHR ''_'' \<and>
      list_all isUpperHex (drop 15 s))"

section \<open>One byte\<close>

lemma hexDigits_digit: "n < 16 \<Longrightarrow> hexDigits n = [digitChar n]"
  by (simp add: hexDigits.simps)

lemma hexDigits_byte:
  assumes "16 \<le> n" "n < 256"
  shows "hexDigits n = [digitChar (n div 16), digitChar (n mod 16)]"
proof -
  from assms have "n div 16 < 16" by simp
  then have "hexDigits (n div 16) = [digitChar (n div 16)]" by (rule hexDigits_digit)
  with assms show ?thesis by (subst hexDigits.simps) simp
qed

lemma upper_digitChar_all:
  "list_all (\<lambda>d. upperChar (digitChar d) = upperHexDigit d) [0..<16]"
  by code_simp

lemma upper_digitChar: "d < 16 \<Longrightarrow> upperChar (digitChar d) = upperHexDigit d"
  using upper_digitChar_all by (simp add: list_all_iff)

lemma upper_zero: "upperChar (CHR ''0'') = upperHexDigit 0"
  by code_simp

lemma sint_small: "b < 256 \<Longrightarrow> sint (of_nat b :: 32 word) = int b"
  by (simp add: signed_of_nat signed_take_bit_int_eq_self_iff)

lemma hexByte_of_nat:
  assumes "b < 256"
  shows "hexByte (of_nat b) = hex2 b"
proof (cases "b < 16")
  case True
  then show ?thesis
    using assms
    by (simp add: hexByte_def toString16_def sint_small hexDigits_digit padStart_def
        toUpperCase_def hex2_def upper_digitChar upper_zero)
next
  case False
  then have "hexDigits b = [digitChar (b div 16), digitChar (b mod 16)]"
    using assms by (simp add: hexDigits_byte)
  moreover from assms have "b div 16 < 16" by simp
  ultimately show ?thesis
    using assms
    by (simp add: hexByte_def toString16_def sint_small padStart_def
        toUpperCase_def hex2_def upper_digitChar)
qed

section \<open>Shifting and masking\<close>

lemma and_255: "(w :: 32 word) AND 255 = take_bit 8 w"
  using take_bit_eq_mask [of 8 w] by (simp add: mask_eq_exp_minus_1)

lemma shr_and_255:
  assumes "k + 8 \<le> 32"
  shows "signed_drop_bit k (w :: 32 word) AND 255 = take_bit 8 (drop_bit k w)"
  unfolding and_255 using assms
  by (auto simp add: bit_eq_iff bit_take_bit_iff bit_signed_drop_bit_iff bit_drop_bit_eq
      dest: bit_imp_le_length)

lemma unat_byte: "unat (take_bit 8 (drop_bit k (w :: 32 word))) = (unat w div 2 ^ k) mod 256"
proof -
  have "unat (take_bit 8 (drop_bit k w)) = take_bit 8 (drop_bit k (unat w))"
    by (simp only: unsigned_take_bit_eq unat_drop_bit_eq)
  then show ?thesis
    by (simp add: drop_bit_eq_div take_bit_eq_mod)
qed

lemma byte_word: "take_bit 8 (drop_bit (8 * k) (w :: 32 word)) = of_nat (byteOf k (unat w))"
proof -
  have "unat (take_bit 8 (drop_bit (8 * k) w)) = byteOf k (unat w)"
    by (simp add: unat_byte byteOf_def power_mult)
  then have "of_nat (unat (take_bit 8 (drop_bit (8 * k) w))) = (of_nat (byteOf k (unat w)) :: 32 word)"
    by (rule arg_cong)
  then show ?thesis by simp
qed

lemma byte_shr:
  assumes "k = 1 \<or> k = 2 \<or> k = 3"
  shows "js_and (js_shr x (8 * k)) 0xFF = of_nat (byteOf k (unat (ToInt32 x)))"
proof -
  from assms have le: "8 * k + 8 \<le> 32" and m: "(8 * k) mod 32 = 8 * k" by auto
  from le have "signed_drop_bit (8 * k) (ToInt32 x) AND 255 = take_bit 8 (drop_bit (8 * k) (ToInt32 x))"
    by (rule shr_and_255)
  then show ?thesis
    by (simp add: js_and_def js_shr_def m byte_word)
qed

lemma byte_low: "js_and (ToInt32 x) 0xFF = of_nat (byteOf 0 (unat (ToInt32 x)))"
  using byte_word [of 0 "ToInt32 x"] by (simp add: js_and_def and_255)

lemma byteOf_less: "byteOf k v < 256"
  by (simp add: byteOf_def)

section \<open>The formatter writes the specification's format\<close>

lemma getFullHMSCode_formatted:
  "getFullHMSCode a c = formatted (unat (ToInt32 a)) (unat (ToInt32 c))"
proof -
  have s: "js_shr x 24 = js_shr x (8 * 3)" "js_shr x 16 = js_shr x (8 * 2)"
    "js_shr x 8 = js_shr x (8 * 1)" for x
    by simp_all
  have b: "hexByte (js_and (js_shr x (8 * 3)) 0xFF) = hex2 (byteOf 3 (unat (ToInt32 x)))"
    "hexByte (js_and (js_shr x (8 * 2)) 0xFF) = hex2 (byteOf 2 (unat (ToInt32 x)))"
    "hexByte (js_and (js_shr x (8 * 1)) 0xFF) = hex2 (byteOf 1 (unat (ToInt32 x)))"
    "hexByte (js_and (ToInt32 x) 0xFF) = hex2 (byteOf 0 (unat (ToInt32 x)))" for x
    using byte_shr [of 3 x] byte_shr [of 2 x] byte_shr [of 1 x]
    by (simp_all add: byte_low hexByte_of_nat byteOf_less)
  show ?thesis
    unfolding getFullHMSCode_def Let_def formatted_def highGroup_def lowGroup_def s b
    by simp
qed

lemma isUpperHex_digit_all: "list_all (\<lambda>d. isUpperHex (upperHexDigit d)) [0..<16]"
  by code_simp

lemma isUpperHex_digit: "d < 16 \<Longrightarrow> isUpperHex (upperHexDigit d)"
  using isUpperHex_digit_all by (simp add: list_all_iff)

lemma hex2_shape:
  assumes "b < 256"
  shows "length (hex2 b) = 2" and "list_all isUpperHex (hex2 b)"
proof -
  from assms have "b div 16 < 16" by simp
  then show "list_all isUpperHex (hex2 b)"
    by (simp add: hex2_def isUpperHex_digit)
qed (simp add: hex2_def)

lemma group_shape:
  "length (highGroup v) = 4" "list_all isUpperHex (highGroup v)"
  "length (lowGroup v) = 4" "list_all isUpperHex (lowGroup v)"
  by (simp_all add: highGroup_def lowGroup_def hex2_shape byteOf_less)

lemma formatted_wellFormed: "wellFormed (formatted a c)"
  by (simp add: wellFormed_def formatted_def group_shape nth_append)

text \<open>
  The two digits \<open>hex2\<close> writes are the hexadecimal numeral of the byte: read back as
  \<open>parseInt\<close> reads digits, they give the byte.
\<close>

lemma digitValue_upper_all: "list_all (\<lambda>d. digitValue (upperHexDigit d) = Some d) [0..<16]"
  by code_simp

lemma digitValue_upper: "d < 16 \<Longrightarrow> digitValue (upperHexDigit d) = Some d"
  using digitValue_upper_all by (simp add: list_all_iff)

lemma hex2_value:
  assumes "b < 256"
  shows "mathInt (hex2 b) = int b"
proof -
  from assms have "b div 16 < 16" by simp
  moreover have "int (16 * (b div 16) + b mod 16) = int b" by simp
  then have "16 * int (b div 16) + int (b mod 16) = int b" by (simp only: of_nat_add of_nat_mult of_nat_numeral)
  ultimately show ?thesis
    by (simp add: mathInt_def hex2_def digitValue_upper)
qed

lemma ToInt32_of_int: "ToInt32 (Finite (of_int i)) = word_of_int i"
  by (simp add: ToInt32_def truncate_rat_def)

lemma ToInt32_of_nat: "ToInt32 (Finite (of_nat n)) = word_of_nat n"
  using ToInt32_of_int [of "int n"] by simp

lemma unat_word_of_int: "unat (word_of_int i :: 32 word) = nat (i mod 2 ^ 32)"
  by (simp add: unat_eq_nat_uint uint_word_of_int)

section \<open>The claims about the formatter\<close>

text \<open>
  C1. For every pair of unsigned 32-bit integers \<open>attr\<close> and \<open>code\<close>, \<open>getFullHMSCode\<close>
  returns the string \<open>AAAA_BBBB_CCCC_DDDD\<close>: every byte written as two upper-case
  hexadecimal digits with its zero kept, the bytes of \<open>attr\<close> in the first two groups and
  those of \<open>code\<close> in the last two, the most significant byte first.
\<close>

theorem getFullHMSCode_u32:
  assumes "a < 2 ^ 32" and "c < 2 ^ 32"
  shows "getFullHMSCode (Finite (of_nat a)) (Finite (of_nat c)) = formatted a c"
  using assms by (simp add: getFullHMSCode_formatted ToInt32_of_nat unat_of_nat)

theorem getFullHMSCode_u32_witness:
  "(305419896 :: nat) < 2 ^ 32 \<and> (2596069104 :: nat) < 2 ^ 32 \<and>
   getFullHMSCode (Finite (of_nat 305419896)) (Finite (of_nat 2596069104)) = ''1234_5678_9ABC_DEF0''"
proof -
  have a: "(305419896 :: nat) < 2 ^ 32" and c: "(2596069104 :: nat) < 2 ^ 32" by simp_all
  have "formatted 305419896 2596069104 = ''1234_5678_9ABC_DEF0''"
    by (simp add: formatted_def highGroup_def lowGroup_def byteOf_def hex2_def upperHexDigit_def)
  with a c getFullHMSCode_u32 [OF a c] show ?thesis by simp
qed

text \<open>
  C5. At the boundary values: all bytes zero give \<open>0000_0000_0000_0000\<close>; all bytes
  \<open>0xFF\<close> give \<open>FFFF_FFFF_FFFF_FFFF\<close>, although \<open>0xFFFFFFFF >> 24\<close> is \<open>-1\<close>, since the
  shifted value is masked; and with eight distinct bytes each one stands in its place.
\<close>

theorem getFullHMSCode_boundary:
  "getFullHMSCode (Finite 0x00000000) (Finite 0x00000000) = ''0000_0000_0000_0000'' \<and>
   getFullHMSCode (Finite 0xFFFFFFFF) (Finite 0xFFFFFFFF) = ''FFFF_FFFF_FFFF_FFFF'' \<and>
   sint (js_shr (Finite 0xFFFFFFFF) 24) = - 1 \<and>
   getFullHMSCode (Finite 0x12345678) (Finite 0x9ABCDEF0) = ''1234_5678_9ABC_DEF0''"
  by code_simp

text \<open>
  C7. For every pair of numbers, negative ones, fractions, \<open>NaN\<close>, the infinities and
  values from \<open>2^32\<close> on included, \<open>getFullHMSCode\<close> returns nineteen characters of the
  shape \<open>[0-9A-F]{4}_[0-9A-F]{4}_[0-9A-F]{4}_[0-9A-F]{4}\<close>; on integers the bytes written
  are those of the value reduced modulo \<open>2^32\<close>.
\<close>

theorem getFullHMSCode_wellFormed:
  "wellFormed (getFullHMSCode x y) \<and>
   getFullHMSCode (Finite (of_int i)) (Finite (of_int j)) =
     formatted (nat (i mod 2 ^ 32)) (nat (j mod 2 ^ 32))"
  by (simp add: getFullHMSCode_formatted formatted_wellFormed ToInt32_of_int unat_word_of_int)

section \<open>The link\<close>

lemma includes_str_iff: "includes_str s t \<longleftrightarrow> (\<exists>p q. s = p @ t @ q)"
proof (induction s)
  case Nil
  then show ?case by simp
next
  case (Cons x xs)
  have "take (length t) (x # xs) = t \<longleftrightarrow> (\<exists>q. x # xs = t @ q)"
    by (metis append_eq_conv_conj append_take_drop_id)
  moreover have "(\<exists>p q. x # xs = p @ t @ q) \<longleftrightarrow> (\<exists>q. x # xs = t @ q) \<or> (\<exists>p q. xs = p @ t @ q)"
  proof
    assume "\<exists>p q. x # xs = p @ t @ q"
    then obtain p q where e: "x # xs = p @ t @ q" by blast
    show "(\<exists>q. x # xs = t @ q) \<or> (\<exists>p q. xs = p @ t @ q)"
    proof (cases p)
      case Nil
      with e show ?thesis by auto
    next
      case (Cons y ys)
      with e have "xs = ys @ t @ q" by simp
      then show ?thesis by blast
    qed
  next
    assume "(\<exists>q. x # xs = t @ q) \<or> (\<exists>p q. xs = p @ t @ q)"
    then show "\<exists>p q. x # xs = p @ t @ q"
    proof
      assume "\<exists>q. x # xs = t @ q"
      then obtain q where "x # xs = [] @ t @ q" by auto
      then show ?thesis by blast
    next
      assume "\<exists>p q. xs = p @ t @ q"
      then obtain p q where "x # xs = (x # p) @ t @ q" by auto
      then show ?thesis by blast
    qed
  qed
  ultimately show ?case using Cons.IH by simp
qed

lemma of_char_lowerChar:
  "(of_char (lowerChar c) :: nat) =
     (let n = of_char c in if (65 \<le> n \<and> n \<le> 90) \<or> (192 \<le> n \<and> n \<le> 222 \<and> n \<noteq> 215) then n + 32 else n)"
  by (auto simp add: lowerChar_def Let_def of_char_of)

lemma char_eq_code: "c = d \<longleftrightarrow> (of_char c :: nat) = of_char d"
  by (simp add: of_char_eq_iff)

lemma lowerChar_h: "lowerChar c = CHR ''h'' \<longleftrightarrow> c = CHR ''h'' \<or> c = CHR ''H''"
  unfolding char_eq_code [of _ "CHR ''h''"] char_eq_code [of _ "CHR ''H''"] of_char_lowerChar
  by (auto simp add: Let_def)

lemma lowerChar_2: "lowerChar c = CHR ''2'' \<longleftrightarrow> c = CHR ''2''"
  unfolding char_eq_code [of _ "CHR ''2''"] of_char_lowerChar
  by (auto simp add: Let_def)

lemma lower_contains_h2:
  "(\<exists>p q. toLowerCase s = p @ ''h2'' @ q) \<longleftrightarrow>
   (\<exists>p c q. s = p @ c # CHR ''2'' # q \<and> (c = CHR ''h'' \<or> c = CHR ''H''))"
proof
  assume "\<exists>p q. toLowerCase s = p @ ''h2'' @ q"
  then obtain p q where "map lowerChar s = p @ CHR ''h'' # CHR ''2'' # q"
    by (auto simp add: toLowerCase_def)
  then obtain p' c d q' where "s = p' @ c # d # q'" "lowerChar c = CHR ''h''" "lowerChar d = CHR ''2''"
    by (auto simp add: map_eq_append_conv map_eq_Cons_conv)
  then show "\<exists>p c q. s = p @ c # CHR ''2'' # q \<and> (c = CHR ''h'' \<or> c = CHR ''H'')"
    by (auto simp add: lowerChar_h lowerChar_2)
next
  assume "\<exists>p c q. s = p @ c # CHR ''2'' # q \<and> (c = CHR ''h'' \<or> c = CHR ''H'')"
  then obtain p c q where s: "s = p @ c # CHR ''2'' # q" and "lowerChar c = CHR ''h''"
    by (auto simp add: lowerChar_h)
  moreover have "lowerChar (CHR ''2'') = CHR ''2''" by (simp add: lowerChar_2)
  ultimately have "toLowerCase s = map lowerChar p @ ''h2'' @ map lowerChar q"
    by (simp add: toLowerCase_def)
  then show "\<exists>p q. toLowerCase s = p @ ''h2'' @ q" by blast
qed

text \<open>
  C3. \<open>getHMSWikiUrl\<close> returns \<open>https://wiki.bambulab.com/en/\<close>, then \<open>h2\<close> when the
  printer's name in lower case contains \<open>h2\<close> and \<open>x1\<close> when it does not, then
  \<open>/troubleshooting/hmscode/\<close> and the formatted code. The test does not see case: the
  name in lower case contains \<open>h2\<close> exactly when the name contains \<open>h2\<close> or \<open>H2\<close>.
\<close>

theorem getHMSWikiUrl_path:
  "getHMSWikiUrl a c printerName =
     ''https://wiki.bambulab.com/en/'' @
     (if \<exists>p q. toLowerCase printerName = p @ ''h2'' @ q then ''h2'' else ''x1'') @
     ''/troubleshooting/hmscode/'' @ getFullHMSCode a c
   \<and> ((\<exists>p q. toLowerCase printerName = p @ ''h2'' @ q) \<longleftrightarrow>
      (\<exists>p x q. printerName = p @ x # CHR ''2'' # q \<and> (x = CHR ''h'' \<or> x = CHR ''H'')))"
  by (simp only: getHMSWikiUrl_def Let_def includes_str_iff lower_contains_h2 simp_thms)

theorem getHMSWikiUrl_path_witness:
  "getHMSWikiUrl (Finite 0x07005500) (Finite 0x00020001) ''Workshop H2D'' =
     ''https://wiki.bambulab.com/en/h2/troubleshooting/hmscode/0700_5500_0002_0001'' \<and>
   getHMSWikiUrl (Finite 0x07005500) (Finite 0x00020001) ''X1 Carbon'' =
     ''https://wiki.bambulab.com/en/x1/troubleshooting/hmscode/0700_5500_0002_0001''"
proof -
  have k: "getFullHMSCode (Finite 0x07005500) (Finite 0x00020001) = ''0700_5500_0002_0001''"
    by code_simp
  have y: "\<exists>p q. toLowerCase ''Workshop H2D'' = p @ ''h2'' @ q"
    unfolding includes_str_iff [symmetric] by code_simp
  have n: "\<not> (\<exists>p q. toLowerCase ''X1 Carbon'' = p @ ''h2'' @ q)"
    unfolding includes_str_iff [symmetric] by code_simp
  from getHMSWikiUrl_path [of "Finite 0x07005500" "Finite 0x00020001" "''Workshop H2D''"]
    getHMSWikiUrl_path [of "Finite 0x07005500" "Finite 0x00020001" "''X1 Carbon''"]
  show ?thesis
    unfolding k if_P [OF y] if_not_P [OF n] by simp
qed

section \<open>Severity, the key and the table\<close>

text \<open>
  C4. \<open>getSeverityInfo\<close> is total: 1 is \<open>Fatal\<close>, 2 is \<open>Serious\<close>, 3 is \<open>Warning\<close>, 4 is
  \<open>Info\<close>, each with its colours and icon, and every other integer, as every other number
  at all, gets what 4 gets.
\<close>

theorem getSeverityInfo_total:
  "getSeverityInfo (Finite 1) =
     \<lparr>label = ''Fatal'', color = ''text-red-500'', bgColor = ''bg-red-500/20'', Icon = AlertTriangle\<rparr> \<and>
   getSeverityInfo (Finite 2) =
     \<lparr>label = ''Serious'', color = ''text-red-400'', bgColor = ''bg-red-500/15'', Icon = AlertTriangle\<rparr> \<and>
   getSeverityInfo (Finite 3) =
     \<lparr>label = ''Warning'', color = ''text-orange-400'', bgColor = ''bg-orange-500/20'', Icon = AlertCircle\<rparr> \<and>
   getSeverityInfo (Finite 4) =
     \<lparr>label = ''Info'', color = ''text-blue-400'', bgColor = ''bg-blue-500/20'', Icon = Info\<rparr> \<and>
   (\<forall>i :: int. i \<notin> {1, 2, 3, 4} \<longrightarrow> getSeverityInfo (Finite (of_int i)) = getSeverityInfo (Finite 4)) \<and>
   (\<forall>x. x \<notin> {Finite 1, Finite 2, Finite 3, Finite 4} \<longrightarrow> getSeverityInfo x = getSeverityInfo (Finite 4))"
  by (simp add: getSeverityInfo_def)

theorem getSeverityInfo_total_witness:
  "label (getSeverityInfo (Finite (of_int 7))) = ''Info'' \<and>
   label (getSeverityInfo (Finite (of_int (- 1)))) = ''Info'' \<and>
   label (getSeverityInfo NaN) = ''Info''"
proof -
  have a: "(7 :: int) \<notin> {1, 2, 3, 4}" and b: "(- 1 :: int) \<notin> {1, 2, 3, 4}"
    and c: "NaN \<notin> {Finite 1, Finite 2, Finite 3, Finite 4}"
    by simp_all
  from getSeverityInfo_total a b c
  have "getSeverityInfo (Finite (of_int 7)) = getSeverityInfo (Finite 4)"
    "getSeverityInfo (Finite (of_int (- 1))) = getSeverityInfo (Finite 4)"
    "getSeverityInfo NaN = getSeverityInfo (Finite 4)"
    "getSeverityInfo (Finite 4) =
       \<lparr>label = ''Info'', color = ''text-blue-400'', bgColor = ''bg-blue-500/20'', Icon = Info\<rparr>"
    by blast+
  then show ?thesis by simp
qed

text \<open>
  C6. The listener runs \<open>onClose\<close> when the key is \<open>Escape\<close> and changes nothing for any
  other key. With a callback that counts its calls, the count goes up exactly on \<open>Escape\<close>.
\<close>

theorem handleKeyDown_Escape:
  "(key e = ''Escape'' \<longrightarrow> handleKeyDown onClose e s = onClose s) \<and>
   (key e \<noteq> ''Escape'' \<longrightarrow> handleKeyDown onClose e s = s) \<and>
   (handleKeyDown Suc e n = Suc n \<longleftrightarrow> key e = ''Escape'')"
  by (simp add: handleKeyDown_def)

theorem handleKeyDown_Escape_witness:
  "handleKeyDown Suc \<lparr>key = ''Escape''\<rparr> 0 = 1 \<and> handleKeyDown Suc \<lparr>key = ''Enter''\<rparr> 0 = 0"
proof -
  have a: "key \<lparr>key = ''Escape''\<rparr> = ''Escape''" and b: "key \<lparr>key = ''Enter''\<rparr> \<noteq> ''Escape''"
    by simp_all
  from handleKeyDown_Escape [of "\<lparr>key = ''Escape''\<rparr>" Suc 0] a
  have "handleKeyDown Suc \<lparr>key = ''Escape''\<rparr> 0 = Suc 0" by blast
  moreover from handleKeyDown_Escape [of "\<lparr>key = ''Enter''\<rparr>" Suc 0] b
  have "handleKeyDown Suc \<lparr>key = ''Enter''\<rparr> 0 = 0" by blast
  ultimately show ?thesis by simp
qed

lemma HMS_keys_distinct: "distinct (map fst HMS_DESCRIPTIONS)"
  by (simp add: HMS_DESCRIPTIONS_def)

lemma HMS_no_empty: "(k, d) \<in> set HMS_DESCRIPTIONS \<Longrightarrow> d \<noteq> []"
  by (auto simp add: HMS_DESCRIPTIONS_def)

lemma map_of_rev_distinct: "distinct (map fst xs) \<Longrightarrow> map_of (rev xs) k = map_of xs k"
proof (induction xs)
  case Nil
  then show ?case by simp
next
  case (Cons x xs)
  obtain a b where x: "x = (a, b)" by (cases x)
  with Cons.prems have "a \<notin> fst ` set xs" and "distinct (map fst xs)" by simp_all
  then have "map_of xs a = None" and "map_of (rev xs) k = map_of xs k"
    by (simp_all add: map_of_eq_None_iff Cons.IH)
  then show ?case
    by (auto simp add: x map_add_def split: option.splits)
qed

lemma getProperty_HMS: "getProperty HMS_DESCRIPTIONS k = map_of HMS_DESCRIPTIONS k"
  by (simp add: getProperty_def map_of_rev_distinct HMS_keys_distinct)

lemma describe_map_of:
  "describe k =
     (case map_of HMS_DESCRIPTIONS k of
        Some d \<Rightarrow> d
      | None \<Rightarrow> ''Unknown error. Click the link below for details.'')"
proof (cases "map_of HMS_DESCRIPTIONS k")
  case None
  then show ?thesis by (simp add: describe_def getProperty_HMS orElse_def)
next
  case (Some d)
  then have "(k, d) \<in> set HMS_DESCRIPTIONS" by (rule map_of_SomeD)
  then have "d \<noteq> []" by (rule HMS_no_empty)
  with Some show ?thesis by (simp add: describe_def getProperty_HMS orElse_def)
qed

text \<open>
  C2. The description of a card is the table's entry at the formatted code, the key
  matched exactly: an entry of the table under that key is what is shown, and a code
  that is no key of the table shows the fallback message.
\<close>

theorem description_lookup:
  "description (renderError printerName e) =
     (case map_of HMS_DESCRIPTIONS (getFullHMSCode (attr e) (codeNum e)) of
        Some d \<Rightarrow> d
      | None \<Rightarrow> ''Unknown error. Click the link below for details.'') \<and>
   (\<forall>d. (getFullHMSCode (attr e) (codeNum e), d) \<in> set HMS_DESCRIPTIONS \<longrightarrow>
      description (renderError printerName e) = d) \<and>
   (getFullHMSCode (attr e) (codeNum e) \<notin> fst ` set HMS_DESCRIPTIONS \<longrightarrow>
      description (renderError printerName e) = ''Unknown error. Click the link below for details.'')"
proof -
  let ?k = "getFullHMSCode (attr e) (codeNum e)"
  have d: "description (renderError printerName e) = describe ?k"
    by (simp add: renderError_def fullHMSCode_def)
  have "describe ?k = d" if "(?k, d) \<in> set HMS_DESCRIPTIONS" for d
    using that HMS_keys_distinct by (simp add: describe_map_of)
  moreover have "describe ?k = ''Unknown error. Click the link below for details.''"
    if "?k \<notin> fst ` set HMS_DESCRIPTIONS"
    using that by (simp add: describe_map_of map_of_eq_None_iff [THEN iffD2])
  ultimately show ?thesis
    unfolding d by (simp add: describe_map_of)
qed

theorem description_lookup_witness:
  "description (renderError ''X1''
      \<lparr>attr = Finite 0x07005500, code = ''0x00020001'', severity = Finite 1\<rparr>) =
     ''A binding error occurred between AMS and the extruder. Please perform AMS initialization again.'' \<and>
   description (renderError ''X1''
      \<lparr>attr = Finite 0x07005500, code = ''0x00020002'', severity = Finite 1\<rparr>) =
     ''Unknown error. Click the link below for details.''"
proof -
  let ?e1 = "\<lparr>attr = Finite 0x07005500, code = ''0x00020001'', severity = Finite 1\<rparr>"
  let ?e2 = "\<lparr>attr = Finite 0x07005500, code = ''0x00020002'', severity = Finite 1\<rparr>"
  have k1: "getFullHMSCode (attr ?e1) (codeNum ?e1) = ''0700_5500_0002_0001''"
    by code_simp
  have k2: "getFullHMSCode (attr ?e2) (codeNum ?e2) = ''0700_5500_0002_0002''"
    by code_simp
  have m1: "(''0700_5500_0002_0001'',
      ''A binding error occurred between AMS and the extruder. Please perform AMS initialization again.'')
      \<in> set HMS_DESCRIPTIONS"
    by (simp add: HMS_DESCRIPTIONS_def)
  have m2: "''0700_5500_0002_0002'' \<notin> fst ` set HMS_DESCRIPTIONS"
    by (simp add: HMS_DESCRIPTIONS_def)
  from description_lookup [of "''X1''" ?e1] m1
  have "description (renderError ''X1'' ?e1) =
     ''A binding error occurred between AMS and the extruder. Please perform AMS initialization again.''"
    unfolding k1 by blast
  moreover from description_lookup [of "''X1''" ?e2] m2
  have "description (renderError ''X1'' ?e2) = ''Unknown error. Click the link below for details.''"
    unfolding k2 by blast
  ultimately show ?thesis by simp
qed

section \<open>Helpers for the code field\<close>

subsection \<open>Characters\<close>

lemma isHexDigit_code:
  "isHexDigit c \<longleftrightarrow>
     (let n = of_char c :: nat in (48 \<le> n \<and> n \<le> 57) \<or> (97 \<le> n \<and> n \<le> 102) \<or> (65 \<le> n \<and> n \<le> 70))"
  by (auto simp add: isHexDigit_def digitValue_def Let_def)

lemma hex_not_space: "isHexDigit c \<Longrightarrow> \<not> isWhiteSpace c"
  by (auto simp add: isHexDigit_code isWhiteSpace_def Let_def)

lemma hex_not_mark:
  assumes "isHexDigit c"
  shows "c \<noteq> CHR ''x''" "c \<noteq> CHR ''X''" "c \<noteq> CHR ''+''" "c \<noteq> CHR ''-''"
  using assms by (auto simp add: isHexDigit_code Let_def)

lemma isUpperHex_not_underscore: "isUpperHex c \<Longrightarrow> c \<noteq> CHR ''_''"
  by (auto simp add: isUpperHex_def)

subsection \<open>Replacing\<close>

lemma replace_str_absent:
  "CHR ''x'' \<notin> set s \<Longrightarrow> replace_str ''0x'' [] s = s"
proof (induction s)
  case Nil
  then show ?case by simp
next
  case (Cons y ys)
  have n: "take (length ''0x'') (y # ys) \<noteq> ''0x''"
  proof
    assume a: "take (length ''0x'') (y # ys) = ''0x''"
    have "CHR ''x'' \<in> set (take (length ''0x'') (y # ys))"
      unfolding a by simp
    then have "CHR ''x'' \<in> set (y # ys)" by (rule in_set_takeD)
    with Cons.prems show False by simp
  qed
  from Cons have "replace_str ''0x'' [] ys = ys" by simp
  then show ?case
    by (simp only: replace_str.simps if_not_P [OF n])
qed

lemma replace_str_prefix: "replace_str ''0x'' [] (''0x'' @ s) = s"
  by simp

lemma replace_underscores_id: "list_all isUpperHex s \<Longrightarrow> replace_underscores s = s"
  by (induction s) (auto simp add: replace_underscores_def isUpperHex_not_underscore)

lemma replace_underscores_append:
  "replace_underscores (s @ t) = replace_underscores s @ replace_underscores t"
  by (simp add: replace_underscores_def)

lemma replace_underscores_Cons:
  "replace_underscores (x # s) = (if x = CHR ''_'' then CHR ''-'' else x) # replace_underscores s"
  by (simp add: replace_underscores_def)

lemma replace_underscores_formatted:
  "replace_underscores (formatted a c) =
     highGroup a @ ''-'' @ lowGroup a @ ''-'' @ highGroup c @ ''-'' @ lowGroup c"
  by (simp add: formatted_def replace_underscores_append replace_underscores_Cons
      replace_underscores_id group_shape)

subsection \<open>Numbers below \<open>2^53\<close>\<close>

lemma width_le: "0 \<le> n \<Longrightarrow> n < 2 ^ k \<Longrightarrow> width n \<le> k"
proof (induction k arbitrary: n)
  case 0
  then have "n = 0" by simp
  then show ?case by (simp add: width.simps)
next
  case (Suc k)
  show ?case
  proof (cases "n \<le> 0")
    case True
    then show ?thesis by (simp add: width.simps)
  next
    case False
    with Suc.prems have "0 \<le> n div 2" "n div 2 < 2 ^ k" by auto
    then have "width (n div 2) \<le> k" by (rule Suc.IH)
    with False show ?thesis by (subst width.simps) simp
  qed
qed

lemma toNumber_exact:
  assumes "0 \<le> i" "i < 2 ^ 53"
  shows "toNumber i = Finite (of_int i)"
proof -
  from assms have "width i \<le> 53" by (rule width_le)
  then have e: "width i - 53 = 0" by simp
  from assms(1) have a: "\<bar>i\<bar> = i" by simp
  have "i < 2 ^ 1024"
    using assms(2) by (rule less_le_trans) simp
  then have "\<not> 2 ^ 1024 \<le> i" by simp
  then show ?thesis
    using assms(1) unfolding toNumber_def Let_def a e by (simp add: sgn_if)
qed


subsection \<open>Parsing a run of hexadecimal digits\<close>

lemma parseInt16_hex:
  assumes "ds \<noteq> []" and "list_all isHexDigit ds"
  shows "parseInt16 ds = toNumber (mathInt ds)"
proof -
  from assms obtain d rest where ds: "ds = d # rest" and d: "isHexDigit d" and r: "list_all isHexDigit rest"
    by (cases ds) auto
  have w: "dropWhile isWhiteSpace ds = ds"
    using d by (simp add: ds hex_not_space)
  have s: "take 1 ds \<noteq> ''-''" "take 1 ds \<noteq> ''+''"
    using hex_not_mark [OF d] by (simp_all add: ds)
  have x: "take 2 ds \<noteq> ''0x''" "take 2 ds \<noteq> ''0X''"
  proof -
    show "take 2 ds \<noteq> ''0x''"
    proof (cases rest)
      case Nil
      then show ?thesis by (simp add: ds)
    next
      case (Cons e rest')
      with r have "isHexDigit e" by simp
      from hex_not_mark(1) [OF this] show ?thesis by (simp add: ds Cons)
    qed
    show "take 2 ds \<noteq> ''0X''"
    proof (cases rest)
      case Nil
      then show ?thesis by (simp add: ds)
    next
      case (Cons e rest')
      with r have "isHexDigit e" by simp
      from hex_not_mark(2) [OF this] show ?thesis by (simp add: ds Cons)
    qed
  qed
  have t: "takeWhile isHexDigit ds = ds"
    using assms(2) by (simp add: list_all_iff)
  show ?thesis
    unfolding parseInt16_def Let_def w
    using s x assms(1) by (simp add: t)
qed

lemma mathInt_nonneg_aux:
  "0 \<le> acc \<Longrightarrow>
   0 \<le> foldl (\<lambda>acc c. 16 * acc + (case digitValue c of Some d \<Rightarrow> int d | None \<Rightarrow> 0)) acc Z"
  by (induction Z arbitrary: acc) (auto split: option.splits)

lemma mathInt_nonneg: "0 \<le> mathInt Z"
  by (simp add: mathInt_def mathInt_nonneg_aux)

lemma hex_no_x: "list_all isHexDigit ds \<Longrightarrow> CHR ''x'' \<notin> set ds"
  using hex_not_mark(1) by (auto simp add: list_all_iff)

lemma codeNum_hex:
  assumes "ds \<noteq> []" and "list_all isHexDigit ds" and "mathInt ds < 2 ^ 53"
    and "code e = ds \<or> code e = ''0x'' @ ds"
  shows "codeNum e = Finite (of_int (mathInt ds))"
proof -
  from assms(4) have "replace_str ''0x'' [] (code e) = ds"
  proof
    assume "code e = ds"
    with assms(2) show ?thesis by (simp add: replace_str_absent hex_no_x)
  next
    assume "code e = ''0x'' @ ds"
    then show ?thesis by (simp only: replace_str_prefix)
  qed
  then have "codeNum e = orZero (toNumber (mathInt ds))"
    using assms(1,2) by (simp add: codeNum_def parseInt16_hex)
  also have "toNumber (mathInt ds) = Finite (of_int (mathInt ds))"
    using mathInt_nonneg assms(3) by (rule toNumber_exact)
  finally show ?thesis by (simp add: orZero_def)
qed

section \<open>The cards\<close>

lemma HMSErrorModal_cards:
  "HMSErrorModal printerName [] = NoHMSErrors"
  "HMSErrorModal printerName (e # es) = Cards (renderError printerName e # map (renderError printerName) es)"
  by (simp_all add: HMSErrorModal_def)

lemma zero_groups: "highGroup 0 = ''0000''" "lowGroup 0 = ''0000''"
  by (simp_all add: highGroup_def lowGroup_def byteOf_def hex2_def upperHexDigit_def)

lemma fullHMSCode_formatted:
  "fullHMSCode e = formatted (unat (ToInt32 (attr e))) (unat (ToInt32 (codeNum e)))"
  by (simp add: fullHMSCode_def getFullHMSCode_formatted)

lemma ToInt32_zero: "unat (ToInt32 (Finite 0)) = 0"
  by (simp add: ToInt32_def truncate_rat_def)

text \<open>
  The wording to be compared with the code: an optional \<open>0x\<close> at the front is
  stripped, and nothing else.
\<close>

definition stripPrefix0x :: "string \<Rightarrow> string" where
  "stripPrefix0x s = (if take 2 s = ''0x'' then drop 2 s else s)"

text \<open>
  What \<open>replace\<close> does: a string without \<open>0x\<close> is left as it is, and otherwise the first
  \<open>0x\<close> goes, wherever it stands. \<open>p\<close> ends before the first \<open>0x\<close> exactly when \<open>p\<close> and
  the \<open>0\<close> that follows hold no \<open>0x\<close>.
\<close>

lemma replace_str_none: "\<not> includes_str t pat \<Longrightarrow> replace_str pat rep t = t"
  by (induction t) auto

lemma replace_str_first:
  "\<not> includes_str (p @ ''0'') ''0x'' \<Longrightarrow> replace_str ''0x'' [] (p @ ''0x'' @ s) = p @ s"
proof (induction p)
  case Nil
  then show ?case by simp
next
  case (Cons y ys)
  from Cons.prems have a: "take (length ''0x'') (y # (ys @ ''0'')) \<noteq> ''0x''"
    and b: "\<not> includes_str (ys @ ''0'') ''0x''"
    unfolding append_Cons includes_str.simps by blast+
  from a have n: "take (length ''0x'') (y # (ys @ ''0x'' @ s)) \<noteq> ''0x''"
    by (cases ys) simp_all
  from b have ih: "replace_str ''0x'' [] (ys @ ''0x'' @ s) = ys @ s"
    by (rule Cons.IH)
  have "replace_str ''0x'' [] (y # (ys @ ''0x'' @ s)) = y # replace_str ''0x'' [] (ys @ ''0x'' @ s)"
    by (subst replace_str.simps(2)) (simp only: if_not_P [OF n])
  with ih show ?case by simp
qed

lemma first_0x_exists:
  "includes_str t ''0x'' \<Longrightarrow> \<exists>p s. t = p @ ''0x'' @ s \<and> \<not> includes_str (p @ ''0'') ''0x''"
proof (induction t)
  case Nil
  then show ?case by simp
next
  case (Cons x xs)
  show ?case
  proof (cases "take (length ''0x'') (x # xs) = ''0x''")
    case True
    then have "x # xs = [] @ ''0x'' @ drop (length ''0x'') (x # xs)"
      by (metis append_Nil append_take_drop_id)
    moreover have "\<not> includes_str ([] @ ''0'') ''0x''" by simp
    ultimately show ?thesis by blast
  next
    case False
    with Cons.prems have "includes_str xs ''0x''"
      unfolding includes_str.simps by blast
    then obtain p s where xs: "xs = p @ ''0x'' @ s" and n: "\<not> includes_str (p @ ''0'') ''0x''"
      using Cons.IH by blast
    from False have "take (length ''0x'') (x # (p @ ''0'')) \<noteq> ''0x''"
      by (cases p) (simp_all add: xs)
    with n have "\<not> includes_str ((x # p) @ ''0'') ''0x''"
      unfolding append_Cons includes_str.simps by blast
    moreover have "x # xs = (x # p) @ ''0x'' @ s" by (simp add: xs)
    ultimately show ?thesis by blast
  qed
qed

text \<open>
  C8, as amended. The code half is not taken as a number: the first \<open>0x\<close> of the \<open>code\<close>
  field is removed, wherever it stands (at the front, inside, or not at all when there is
  none), and what is left is parsed as hexadecimal, with 0 in place of \<open>NaN\<close>. So a code
  that does not parse is shown with \<open>0000\<close> and \<open>0000\<close> as the last two groups, in the
  code on the card and in the link; and a code that is a run of hexadecimal digits, with
  or without \<open>0x\<close> in front, gives the number the digits denote (below \<open>2^53\<close>, where every
  integer is a double). Every code field falls under the first or the second case.
\<close>

theorem codeNum_first_0x:
  "(\<not> includes_str (code e) ''0x'' \<longrightarrow> codeNum e = orZero (parseInt16 (code e))) \<and>
   (code e = p @ ''0x'' @ s \<and> \<not> includes_str (p @ ''0'') ''0x'' \<longrightarrow>
      codeNum e = orZero (parseInt16 (p @ s))) \<and>
   (parseInt16 (replace_str ''0x'' [] (code e)) = NaN \<longrightarrow>
      codeNum e = Finite 0 \<and>
      (let a = unat (ToInt32 (attr e)) in
         fullHMSCode e = highGroup a @ ''_'' @ lowGroup a @ ''_0000_0000'' \<and>
         displayCode (renderError printerName e) =
           ''HMS_'' @ highGroup a @ ''-'' @ lowGroup a @ ''-0000-0000'' \<and>
         wikiUrl (renderError printerName e) =
           ''https://wiki.bambulab.com/en/'' @
           (if includes_str (toLowerCase printerName) ''h2'' then ''h2'' else ''x1'') @
           ''/troubleshooting/hmscode/'' @ highGroup a @ ''_'' @ lowGroup a @ ''_0000_0000'')) \<and>
   (ds \<noteq> [] \<and> list_all isHexDigit ds \<and> mathInt ds < 2 ^ 53 \<and>
      (code e = ds \<or> code e = ''0x'' @ ds) \<longrightarrow>
      codeNum e = Finite (of_int (mathInt ds))) \<and>
   ((\<exists>p s. code e = p @ ''0x'' @ s \<and> \<not> includes_str (p @ ''0'') ''0x'' \<and>
        codeNum e = orZero (parseInt16 (p @ s))) \<or>
    (\<not> includes_str (code e) ''0x'' \<and> codeNum e = orZero (parseInt16 (code e))))"
proof (intro conjI impI)
  assume "\<not> includes_str (code e) ''0x''"
  then show "codeNum e = orZero (parseInt16 (code e))"
    by (simp add: codeNum_def replace_str_none)
next
  assume "code e = p @ ''0x'' @ s \<and> \<not> includes_str (p @ ''0'') ''0x''"
  then have c: "code e = p @ ''0x'' @ s" and n: "\<not> includes_str (p @ ''0'') ''0x''"
    by blast+
  from n have "replace_str ''0x'' [] (p @ ''0x'' @ s) = p @ s"
    by (rule replace_str_first)
  then show "codeNum e = orZero (parseInt16 (p @ s))"
    by (simp only: codeNum_def c)
next
  assume n: "parseInt16 (replace_str ''0x'' [] (code e)) = NaN"
  then show z: "codeNum e = Finite 0"
    by (simp add: codeNum_def orZero_def)
  have f: "fullHMSCode e = formatted (unat (ToInt32 (attr e))) 0"
    by (simp add: fullHMSCode_formatted z ToInt32_zero)
  have g: "getFullHMSCode (attr e) (Finite 0) = formatted (unat (ToInt32 (attr e))) 0"
    by (simp add: getFullHMSCode_formatted ToInt32_zero)
  show "let a = unat (ToInt32 (attr e)) in
         fullHMSCode e = highGroup a @ ''_'' @ lowGroup a @ ''_0000_0000'' \<and>
         displayCode (renderError printerName e) =
           ''HMS_'' @ highGroup a @ ''-'' @ lowGroup a @ ''-0000-0000'' \<and>
         wikiUrl (renderError printerName e) =
           ''https://wiki.bambulab.com/en/'' @
           (if includes_str (toLowerCase printerName) ''h2'' then ''h2'' else ''x1'') @
           ''/troubleshooting/hmscode/'' @ highGroup a @ ''_'' @ lowGroup a @ ''_0000_0000''"
    unfolding Let_def
  proof (intro conjI)
    show "fullHMSCode e =
      highGroup (unat (ToInt32 (attr e))) @ ''_'' @ lowGroup (unat (ToInt32 (attr e))) @ ''_0000_0000''"
      by (simp add: f formatted_def zero_groups)
    show "displayCode (renderError printerName e) =
      ''HMS_'' @ highGroup (unat (ToInt32 (attr e))) @ ''-'' @ lowGroup (unat (ToInt32 (attr e))) @
      ''-0000-0000''"
      by (simp add: renderError_def f replace_underscores_formatted zero_groups)
    show "wikiUrl (renderError printerName e) =
      ''https://wiki.bambulab.com/en/'' @
      (if includes_str (toLowerCase printerName) ''h2'' then ''h2'' else ''x1'') @
      ''/troubleshooting/hmscode/'' @ highGroup (unat (ToInt32 (attr e))) @ ''_'' @
      lowGroup (unat (ToInt32 (attr e))) @ ''_0000_0000''"
      by (simp add: renderError_def getHMSWikiUrl_def z g formatted_def zero_groups)
  qed
next
  assume "ds \<noteq> [] \<and> list_all isHexDigit ds \<and> mathInt ds < 2 ^ 53 \<and>
      (code e = ds \<or> code e = ''0x'' @ ds)"
  then show "codeNum e = Finite (of_int (mathInt ds))"
    by (simp add: codeNum_hex)
next
  show "(\<exists>p s. code e = p @ ''0x'' @ s \<and> \<not> includes_str (p @ ''0'') ''0x'' \<and>
        codeNum e = orZero (parseInt16 (p @ s))) \<or>
    (\<not> includes_str (code e) ''0x'' \<and> codeNum e = orZero (parseInt16 (code e)))"
  proof (cases "includes_str (code e) ''0x''")
    case True
    then obtain p s where c: "code e = p @ ''0x'' @ s" and n: "\<not> includes_str (p @ ''0'') ''0x''"
      using first_0x_exists by blast
    from n have "replace_str ''0x'' [] (p @ ''0x'' @ s) = p @ s"
      by (rule replace_str_first)
    then have "codeNum e = orZero (parseInt16 (p @ s))"
      by (simp only: codeNum_def c)
    with c n show ?thesis by blast
  next
    case False
    then have "codeNum e = orZero (parseInt16 (code e))"
      by (simp add: codeNum_def replace_str_none)
    with False show ?thesis by blast
  qed
qed

theorem codeNum_first_0x_witness:
  "codeNum \<lparr>attr = Finite 0x07005500, code = ''10x2'', severity = Finite 2\<rparr> = Finite 0x12 \<and>
   codeNum \<lparr>attr = Finite 0x07005500, code = ''0x0x1A'', severity = Finite 2\<rparr> = Finite 0x1A \<and>
   codeNum \<lparr>attr = Finite 0x07005500, code = ''1A'', severity = Finite 2\<rparr> = Finite 0x1A \<and>
   displayCode (renderError ''P1S''
      \<lparr>attr = Finite 0x07005500, code = ''garbage'', severity = Finite 2\<rparr>) =
     ''HMS_0700-5500-0000-0000'' \<and>
   wikiUrl (renderError ''P1S''
      \<lparr>attr = Finite 0x07005500, code = ''garbage'', severity = Finite 2\<rparr>) =
     ''https://wiki.bambulab.com/en/x1/troubleshooting/hmscode/0700_5500_0000_0000'' \<and>
   codeNum \<lparr>attr = Finite 0x07005500, code = ''0x00020001'', severity = Finite 2\<rparr> = Finite 0x20001"
proof -
  let ?inner = "\<lparr>attr = Finite 0x07005500, code = ''10x2'', severity = Finite 2\<rparr>"
  let ?twice = "\<lparr>attr = Finite 0x07005500, code = ''0x0x1A'', severity = Finite 2\<rparr>"
  let ?plain = "\<lparr>attr = Finite 0x07005500, code = ''1A'', severity = Finite 2\<rparr>"
  let ?bad = "\<lparr>attr = Finite 0x07005500, code = ''garbage'', severity = Finite 2\<rparr>"
  let ?good = "\<lparr>attr = Finite 0x07005500, code = ''0x00020001'', severity = Finite 2\<rparr>"
  have i: "code ?inner = ''1'' @ ''0x'' @ ''2'' \<and> \<not> includes_str (''1'' @ ''0'') ''0x''"
    by simp
  have t: "code ?twice = [] @ ''0x'' @ ''0x1A'' \<and> \<not> includes_str ([] @ ''0'') ''0x''"
    by simp
  have q: "\<not> includes_str (code ?plain) ''0x''"
    by simp
  have v: "orZero (parseInt16 (''1'' @ ''2'')) = Finite 0x12"
    "orZero (parseInt16 ([] @ ''0x1A'')) = Finite 0x1A"
    "orZero (parseInt16 (code ?plain)) = Finite 0x1A"
    by code_simp+
  have n: "parseInt16 (replace_str ''0x'' [] (code ?bad)) = NaN"
    by code_simp
  have a: "unat (ToInt32 (attr ?bad)) = 0x07005500"
    by (simp add: ToInt32_def truncate_rat_def)
  have g: "highGroup 0x07005500 = ''0700''" "lowGroup 0x07005500 = ''5500''"
    by (simp_all add: highGroup_def lowGroup_def byteOf_def hex2_def upperHexDigit_def)
  have p: "\<not> includes_str (toLowerCase ''P1S'') ''h2''"
    by code_simp
  have h: "''00020001'' \<noteq> [] \<and> list_all isHexDigit ''00020001'' \<and> mathInt ''00020001'' < 2 ^ 53 \<and>
      (code ?good = ''00020001'' \<or> code ?good = ''0x'' @ ''00020001'')"
    by code_simp
  have m: "mathInt ''00020001'' = 0x20001"
    by code_simp
  note none = codeNum_first_0x [of ?plain "[]" "[]" "''P1S''" "[]", THEN conjunct1, THEN mp, OF q]
  note first = codeNum_first_0x [of ?inner "''1''" "''2''" "''P1S''" "[]",
      THEN conjunct2, THEN conjunct1, THEN mp, OF i]
  note again = codeNum_first_0x [of ?twice "[]" "''0x1A''" "''P1S''" "[]",
      THEN conjunct2, THEN conjunct1, THEN mp, OF t]
  note bad = codeNum_first_0x [of ?bad "[]" "[]" "''P1S''" "[]",
      THEN conjunct2, THEN conjunct2, THEN conjunct1, THEN mp, OF n]
  note good = codeNum_first_0x [of ?good "[]" "[]" "''P1S''" "''00020001''",
      THEN conjunct2, THEN conjunct2, THEN conjunct2, THEN conjunct1, THEN mp, OF h]
  from bad [THEN conjunct2]
  have "displayCode (renderError ''P1S'' ?bad) = ''HMS_0700-5500-0000-0000''"
    "wikiUrl (renderError ''P1S'' ?bad) =
      ''https://wiki.bambulab.com/en/x1/troubleshooting/hmscode/0700_5500_0000_0000''"
    unfolding Let_def a g if_not_P [OF p] by simp_all
  moreover from good have "codeNum ?good = Finite 0x20001"
    unfolding m by simp
  moreover note first [unfolded v] again [unfolded v] none [unfolded v]
  ultimately show ?thesis by simp
qed

text \<open>
  C8 as first worded, with only a prefix stripped, fails: in \<open>10x2\<close> the code removes the
  inner \<open>0x\<close> and reads \<open>12\<close>, which is 18, where stripping a prefix would leave \<open>10x2\<close>
  and read \<open>10\<close>, which is 16.
\<close>

theorem codeNum_prefix_counterexample:
  "codeNum \<lparr>attr = Finite 0, code = ''10x2'', severity = Finite 1\<rparr> = Finite 0x12 \<and>
   orZero (parseInt16 (stripPrefix0x ''10x2'')) = Finite 0x10 \<and>
   codeNum \<lparr>attr = Finite 0, code = ''10x2'', severity = Finite 1\<rparr> \<noteq>
     orZero (parseInt16 (stripPrefix0x (code \<lparr>attr = Finite 0, code = ''10x2'', severity = Finite 1\<rparr>)))"
  by code_simp

text \<open>
  C9. The code on the card is \<open>HMS_\<close> and the formatted code with a hyphen for every
  underscore, \<open>HMS_AAAA-BBBB-CCCC-DDDD\<close>; the key of the description and the link keep
  the underscores.
\<close>

theorem displayCode_hyphens:
  "displayCode (renderError printerName e) = ''HMS_'' @ replace_underscores (fullHMSCode e) \<and>
   (let a = unat (ToInt32 (attr e)); c = unat (ToInt32 (codeNum e)) in
      displayCode (renderError printerName e) =
        ''HMS_'' @ highGroup a @ ''-'' @ lowGroup a @ ''-'' @ highGroup c @ ''-'' @ lowGroup c \<and>
      description (renderError printerName e) =
        describe (highGroup a @ ''_'' @ lowGroup a @ ''_'' @ highGroup c @ ''_'' @ lowGroup c) \<and>
      wikiUrl (renderError printerName e) =
        ''https://wiki.bambulab.com/en/'' @
        (if includes_str (toLowerCase printerName) ''h2'' then ''h2'' else ''x1'') @
        ''/troubleshooting/hmscode/'' @
        highGroup a @ ''_'' @ lowGroup a @ ''_'' @ highGroup c @ ''_'' @ lowGroup c)"
  unfolding Let_def
  by (simp add: renderError_def getHMSWikiUrl_def fullHMSCode_formatted getFullHMSCode_formatted
      replace_underscores_formatted)
    (simp add: formatted_def)

theorem displayCode_hyphens_witness:
  "displayCode (renderError ''H2D''
      \<lparr>attr = Finite 0x07005500, code = ''0x00020001'', severity = Finite 2\<rparr>) =
     ''HMS_0700-5500-0002-0001'' \<and>
   wikiUrl (renderError ''H2D''
      \<lparr>attr = Finite 0x07005500, code = ''0x00020001'', severity = Finite 2\<rparr>) =
     ''https://wiki.bambulab.com/en/h2/troubleshooting/hmscode/0700_5500_0002_0001''"
proof -
  let ?e = "\<lparr>attr = Finite 0x07005500, code = ''0x00020001'', severity = Finite 2\<rparr>"
  have a: "unat (ToInt32 (attr ?e)) = 0x07005500"
    by (simp add: ToInt32_def truncate_rat_def)
  have "codeNum ?e = Finite 0x20001" by code_simp
  then have c: "unat (ToInt32 (codeNum ?e)) = 0x20001"
    by (simp add: ToInt32_def truncate_rat_def)
  have g: "highGroup 0x07005500 = ''0700''" "lowGroup 0x07005500 = ''5500''"
    "highGroup 0x20001 = ''0002''" "lowGroup 0x20001 = ''0001''"
    by (simp_all add: highGroup_def lowGroup_def byteOf_def hex2_def upperHexDigit_def)
  have p: "includes_str (toLowerCase ''H2D'') ''h2''"
    by code_simp
  from displayCode_hyphens [of "''H2D''" ?e, THEN conjunct2]
  show ?thesis
    unfolding Let_def a c g if_P [OF p] by simp
qed

end
